theory Spec2Isabelle
  imports Main
begin

section \<open>Python strings\<close>

text \<open>
  A Python \<open>str\<close> is modelled as a \<open>string\<close>: the list of its code points, each below 256.
  \<open>len\<close> is \<open>length\<close>, \<open>==\<close> is equality of lists.
\<close>

definition newline :: char where
  "newline = CHR ''\<newline>''"

text \<open>\<open>s.startswith(p)\<close>.\<close>

definition startswith :: "string \<Rightarrow> string \<Rightarrow> bool" where
  "startswith s p = (take (length p) s = p)"

text \<open>\<open>sub in s\<close> on strings: \<open>sub\<close> occurs in \<open>s\<close> at some offset.\<close>

fun py_in :: "string \<Rightarrow> string \<Rightarrow> bool" where
  "py_in sub [] = (sub = [])"
| "py_in sub (c # cs) = (startswith (c # cs) sub \<or> py_in sub cs)"

text \<open>\<open>s.lower()\<close>: the upper-case letters below code point 256 move up by 32.\<close>

definition lower_char :: "char \<Rightarrow> char" where
  "lower_char c =
     (let n = (of_char c :: nat)
      in if (65 \<le> n \<and> n \<le> 90) \<or> (192 \<le> n \<and> n \<le> 222 \<and> n \<noteq> 215)
         then char_of (n + 32) else c)"

definition lower :: "string \<Rightarrow> string" where
  "lower s = map lower_char s"

text \<open>
  \<open>s.split(sep, maxsplit)\<close> for a non-empty separator: the text is cut at the leftmost
  occurrences of \<open>sep\<close>, scanning from the left without overlap, at most \<open>maxsplit\<close> times.
  \<open>find_first\<close> cuts at the leftmost occurrence.
\<close>

fun find_first :: "string \<Rightarrow> string \<Rightarrow> (string \<times> string) option" where
  "find_first sep [] = None"
| "find_first sep (c # cs) =
     (if startswith (c # cs) sep then Some ([], drop (length sep) (c # cs))
      else (case find_first sep cs of
              None \<Rightarrow> None
            | Some (a, b) \<Rightarrow> Some (c # a, b)))"

fun split_max :: "string \<Rightarrow> nat \<Rightarrow> string \<Rightarrow> string list" where
  "split_max sep 0 s = [s]"
| "split_max sep (Suc n) s =
     (case find_first sep s of
        None \<Rightarrow> [s]
      | Some (a, b) \<Rightarrow> a # split_max sep n b)"

text \<open>
  \<open>s.split(sep)\<close> has no limit; a text of \<open>length s\<close> characters cannot be cut more than
  \<open>length s\<close> times by a non-empty separator.
\<close>

definition split :: "string \<Rightarrow> string \<Rightarrow> string list" where
  "split sep s = split_max sep (length s) s"

text \<open>\<open>str(n)\<close> for a natural number, as the f-strings print \<open>len(lines)\<close>.\<close>

definition digit :: "nat \<Rightarrow> char" where
  "digit d = char_of (48 + d)"

function show_nat :: "nat \<Rightarrow> string" where
  "show_nat n = (if n < 10 then [digit n] else show_nat (n div 10) @ [digit (n mod 10)])"
  by pat_completeness auto
termination
  by (relation "measure id") auto

declare show_nat.simps [simp del]

definition show_int :: "int \<Rightarrow> string" where
  "show_int i = (if i < 0 then CHR ''-'' # show_nat (nat (- i)) else show_nat (nat i))"

section \<open>Regular expressions\<close>

text \<open>
  The two patterns of the validator use literals, character classes, the dot, the anchors
  \<open>^\<close> and \<open>$\<close>, concatenation and repetition with a lower bound (\<open>*\<close>, \<open>+\<close>, \<open>{2,}\<close>). The
  validator only tests whether \<open>match\<close> or \<open>search\<close> finds something, so the engine computes
  every cursor a pattern can stop at; which of them a greedy or a lazy repetition would
  prefer does not change whether one exists. A cursor is the offset into the subject and
  the text that is left.
\<close>

datatype regex =
    Bol
  | Eol
  | Lit char
  | Cls "(char \<times> char) list"
  | Dot
  | Cat regex regex
  | Rep nat regex

type_synonym cursor = "nat \<times> string"

definition in_class :: "(char \<times> char) list \<Rightarrow> char \<Rightarrow> bool" where
  "in_class rs c =
     list_ex (\<lambda>(lo, hi). (of_char lo :: nat) \<le> of_char c \<and> (of_char c :: nat) \<le> of_char hi) rs"

text \<open>One character that satisfies \<open>p\<close>.\<close>

fun one_char :: "(char \<Rightarrow> bool) \<Rightarrow> cursor \<Rightarrow> cursor list" where
  "one_char p (i, []) = []"
| "one_char p (i, c # cs) = (if p c then [(Suc i, cs)] else [])"

text \<open>
  \<open>many f n fuel c\<close>: \<open>n\<close> mandatory rounds of \<open>f\<close>, then any number of further rounds. A
  further round that consumes nothing adds no new cursor and is dropped, so \<open>fuel\<close> need
  only be the length of the remaining text.
\<close>

fun many :: "(cursor \<Rightarrow> cursor list) \<Rightarrow> nat \<Rightarrow> nat \<Rightarrow> cursor \<Rightarrow> cursor list" where
  "many f (Suc n) fuel c = concat (map (many f n fuel) (f c))"
| "many f 0 0 c = [c]"
| "many f 0 (Suc k) c =
     c # concat (map (many f 0 k) (filter (\<lambda>d. length (snd d) < length (snd c)) (f c)))"

primrec run :: "regex \<Rightarrow> cursor \<Rightarrow> cursor list" where
  "run Bol c = (if fst c = 0 then [c] else [])"
| "run Eol c = (if snd c = [] \<or> snd c = [newline] then [c] else [])"
| "run (Lit x) c = one_char (\<lambda>y. y = x) c"
| "run (Cls rs) c = one_char (in_class rs) c"
| "run Dot c = one_char (\<lambda>y. y \<noteq> newline) c"
| "run (Cat r s) c = concat (map (run s) (run r c))"
| "run (Rep n r) c = many (run r) n (length (snd c)) c"

text \<open>\<open>pattern.match(s)\<close> tries offset 0 only; \<open>pattern.search(s)\<close> tries every offset.\<close>

definition re_match :: "regex \<Rightarrow> string \<Rightarrow> bool" where
  "re_match r s = (run r (0, s) \<noteq> [])"

definition re_search :: "regex \<Rightarrow> string \<Rightarrow> bool" where
  "re_search r s = list_ex (\<lambda>i. run r (i, drop i s) \<noteq> []) [0..<Suc (length s)]"

section \<open>Values and exceptions\<close>

text \<open>
  What \<open>yaml.safe_load\<close> can hand back, as far as the validator looks at it: \<open>None\<close>, a
  boolean, an integer, a string, a list or a mapping (a \<open>dict\<close>, kept as the list of its
  items in insertion order). Floats, timestamps and binary values are left out.
\<close>

datatype pyval =
    PNone
  | PBool bool
  | PInt int
  | PStr string
  | PList "pyval list"
  | PDict "(pyval \<times> pyval) list"

text \<open>
  The exceptions a run can raise: \<open>TypeError\<close> and \<open>AttributeError\<close> from an operation on a
  value of the wrong type, \<open>ReadError\<close> for whatever \<open>read_text\<close> raises (\<open>OSError\<close>,
  \<open>UnicodeDecodeError\<close>).
\<close>

datatype exn = TypeError | AttributeError | ReadError

text \<open>
  \<open>yaml.safe_load\<close> is an external library: the validator is modelled over any decoder.
  \<open>Inr v\<close> is the decoded value, \<open>Inl detail\<close> a raised \<open>yaml.YAMLError\<close> whose \<open>str\<close> is
  \<open>detail\<close>.
\<close>

type_synonym loader = "string \<Rightarrow> string + pyval"

text \<open>Sequencing: an exception ends the run.\<close>

definition and_then :: "exn + 'a \<Rightarrow> ('a \<Rightarrow> exn + 'b) \<Rightarrow> exn + 'b" where
  "and_then r f = (case r of Inl e \<Rightarrow> Inl e | Inr x \<Rightarrow> f x)"

text \<open>\<open>if v:\<close>\<close>

fun truthy :: "pyval \<Rightarrow> bool" where
  "truthy PNone = False"
| "truthy (PBool b) = b"
| "truthy (PInt i) = (i \<noteq> 0)"
| "truthy (PStr s) = (s \<noteq> [])"
| "truthy (PList xs) = (xs \<noteq> [])"
| "truthy (PDict kvs) = (kvs \<noteq> [])"

text \<open>\<open>isinstance(v, bool)\<close>\<close>

fun is_bool :: "pyval \<Rightarrow> bool" where
  "is_bool (PBool b) = True"
| "is_bool v = False"

text \<open>
  \<open>for key in v\<close>: a mapping yields its keys, a string its characters, a list its
  elements; \<open>None\<close>, booleans and integers are not iterable.
\<close>

fun py_iter :: "pyval \<Rightarrow> exn + pyval list" where
  "py_iter (PDict kvs) = Inr (map fst kvs)"
| "py_iter (PStr s) = Inr (map (\<lambda>c. PStr [c]) s)"
| "py_iter (PList xs) = Inr xs"
| "py_iter v = Inl TypeError"

text \<open>\<open>v.get(k)\<close>: only a mapping has the method; a missing key gives \<open>None\<close>.\<close>

fun py_get :: "pyval \<Rightarrow> string \<Rightarrow> exn + pyval" where
  "py_get (PDict kvs) k = Inr (case map_of kvs (PStr k) of None \<Rightarrow> PNone | Some v \<Rightarrow> v)"
| "py_get v k = Inl AttributeError"

text \<open>
  What a key costs the unknown-key loop: the set membership test hashes it, and a list or
  a mapping is unhashable; otherwise \<open>{key}\<close> in the f-string is \<open>str(key)\<close>.
\<close>

fun key_text :: "pyval \<Rightarrow> exn + string" where
  "key_text PNone = Inr ''None''"
| "key_text (PBool b) = Inr (if b then ''True'' else ''False'')"
| "key_text (PInt i) = Inr (show_int i)"
| "key_text (PStr s) = Inr s"
| "key_text (PList xs) = Inl TypeError"
| "key_text (PDict kvs) = Inl TypeError"

section \<open>The validator\<close>

text \<open>
  \<open>Path(skill_path)\<close>, as far as the validator reads it: \<open>str(path)\<close> and \<open>path.name\<close>
  (\<open>pathlib\<close> computes both).
\<close>

record path =
  path_str :: string
  path_name :: string

text \<open>
  What the filesystem answers during one run: \<open>skill_path.exists()\<close>,
  \<open>skill_path.is_dir()\<close>, \<open>(skill_path / "SKILL.md").exists()\<close> and
  \<open>(skill_path / "SKILL.md").read_text(encoding='utf-8')\<close>.
\<close>

record fs =
  dir_exists :: bool
  dir_is_dir :: bool
  md_exists :: bool
  md_read :: "exn + string"

record skill_validator =
  skill_path :: path
  errors :: "string list"
  warnings :: "string list"

definition init :: "path \<Rightarrow> skill_validator" where
  "init p = \<lparr>skill_path = p, errors = [], warnings = []\<rparr>"

definition add_error :: "string \<Rightarrow> skill_validator \<Rightarrow> skill_validator" where
  "add_error msg self = self\<lparr>errors := errors self @ [msg]\<rparr>"

definition add_warning :: "string \<Rightarrow> skill_validator \<Rightarrow> skill_validator" where
  "add_warning msg self = self\<lparr>warnings := warnings self @ [msg]\<rparr>"

definition MAX_LINES :: nat where
  "MAX_LINES = 500"

definition MAX_NAME_LENGTH :: nat where
  "MAX_NAME_LENGTH = 64"

definition MAX_DESCRIPTION_LENGTH :: nat where
  "MAX_DESCRIPTION_LENGTH = 1024"

definition lower_alnum :: regex where
  "lower_alnum = Cls [(CHR ''a'', CHR ''z''), (CHR ''0'', CHR ''9'')]"

text \<open>\<^verbatim>\<open>^[a-z0-9]+(-[a-z0-9]+)*$\<close>\<close>

definition NAME_PATTERN :: regex where
  "NAME_PATTERN =
     Cat Bol (Cat (Rep 1 lower_alnum)
       (Cat (Rep 0 (Cat (Lit CHR ''-'') (Rep 1 lower_alnum))) Eol))"

definition VALID_FRONTMATTER_KEYS :: "string set" where
  "VALID_FRONTMATTER_KEYS =
     {''name'', ''description'', ''allowed-tools'', ''disable-model-invocation'',
      ''user-invocable'', ''context'', ''agent'', ''hooks'', ''model'', ''argument-hint'',
      ''license'', ''metadata'', ''compatibility''}"

definition q :: string where
  "q = [CHR 0x27]"

definition validate_folder_structure :: "fs \<Rightarrow> skill_validator \<Rightarrow> skill_validator" where
  "validate_folder_structure fs self =
     (if \<not> dir_exists fs then
        add_error (''Skill folder does not exist: '' @ path_str (skill_path self)) self
      else if \<not> dir_is_dir fs then
        add_error (''Path is not a directory: '' @ path_str (skill_path self)) self
      else if \<not> md_exists fs then
        add_error (''SKILL.md not found in '' @ path_str (skill_path self)) self
      else
        (let folder_name = path_name (skill_path self)
         in if \<not> re_match NAME_PATTERN folder_name then
              add_error (''Folder name '' @ q @ folder_name @ q @
                '' invalid. Use lowercase letters, numbers, and hyphens only.'') self
            else self))"

definition parse_frontmatter :: "loader \<Rightarrow> string \<Rightarrow> skill_validator \<Rightarrow> skill_validator \<times> pyval" where
  "parse_frontmatter safe_load content self =
     (if \<not> startswith content ''---'' then (self, PNone)
      else
        (let parts = split_max ''---'' 2 content
         in if length parts < 3 then (self, PNone)
            else (case safe_load (parts ! 1) of
                    Inr v \<Rightarrow> (self, v)
                  | Inl e \<Rightarrow> (add_error (''YAML parsing error: '' @ e) self, PNone))))"

text \<open>\<open>key not in self.VALID_FRONTMATTER_KEYS\<close>, for a hashable key.\<close>

fun known_key :: "pyval \<Rightarrow> bool" where
  "known_key (PStr s) = (s \<in> VALID_FRONTMATTER_KEYS)"
| "known_key v = False"

fun check_keys :: "pyval list \<Rightarrow> skill_validator \<Rightarrow> exn + skill_validator" where
  "check_keys [] self = Inr self"
| "check_keys (key # keys) self =
     and_then (key_text key) (\<lambda>t.
       check_keys keys
         (if \<not> known_key key then
            add_warning (''Unknown frontmatter key: '' @ q @ t @ q) self
          else self))"

text \<open>
  The \<open>name\<close> field. A true boolean or a non-zero integer has no \<open>len\<close>; a non-empty list
  or mapping has one, and \<open>NAME_PATTERN.match\<close> then refuses it.
\<close>

definition check_name :: "pyval \<Rightarrow> skill_validator \<Rightarrow> exn + skill_validator" where
  "check_name name self =
     (if truthy name then
        (case name of
           PStr s \<Rightarrow>
             (let self1 =
                    (if length s > MAX_NAME_LENGTH then
                       add_error (''Name '' @ q @ s @ q @ '' exceeds max length ('' @
                         show_nat MAX_NAME_LENGTH @ '' chars)'') self
                     else self);
                  self2 =
                    (if \<not> re_match NAME_PATTERN s then
                       add_error (''Name '' @ q @ s @ q @
                         '' invalid. Use lowercase, numbers, hyphens only.'') self1
                     else self1);
                  folder_name = path_name (skill_path self2)
              in Inr (if s \<noteq> folder_name then
                        add_warning (''Name '' @ q @ s @ q @ '' doesn't match folder '' @
                          q @ folder_name @ q) self2
                      else self2))
         | PList xs \<Rightarrow> Inl TypeError
         | PDict kvs \<Rightarrow> Inl TypeError
         | _ \<Rightarrow> Inl TypeError)
      else Inr (add_warning ''No 'name' field in frontmatter (will use folder name)'' self))"

text \<open>
  The \<open>description\<close> field. A true boolean or a non-zero integer has no \<open>len\<close>; a
  non-empty list or mapping has one, and no \<open>lower\<close>.
\<close>

definition check_description :: "pyval \<Rightarrow> skill_validator \<Rightarrow> exn + skill_validator" where
  "check_description description self =
     (if truthy description then
        (case description of
           PStr s \<Rightarrow>
             (let self1 =
                    (if length s > MAX_DESCRIPTION_LENGTH then
                       add_error (''Description exceeds max length ('' @
                         show_nat MAX_DESCRIPTION_LENGTH @ '' chars)'') self
                     else self);
                  self2 =
                    (if \<not> py_in ''use when'' (lower s) then
                       add_warning
                         ''Description should include 'Use when...' trigger conditions'' self1
                     else self1)
              in Inr (if startswith (lower s) ''i '' \<or> startswith (lower s) (''i'' @ q)
                         \<or> startswith (lower s) ''we '' then
                        add_warning
                          ''Description should be in third person (avoid 'I' or 'We')'' self2
                      else self2))
         | PList xs \<Rightarrow> Inl AttributeError
         | PDict kvs \<Rightarrow> Inl AttributeError
         | _ \<Rightarrow> Inl TypeError)
      else Inr (add_error ''Missing required 'description' field'' self))"

fun check_bool_fields :: "pyval \<Rightarrow> string list \<Rightarrow> skill_validator \<Rightarrow> exn + skill_validator" where
  "check_bool_fields frontmatter [] self = Inr self"
| "check_bool_fields frontmatter (field # rest) self =
     and_then (py_get frontmatter field) (\<lambda>v.
       check_bool_fields frontmatter rest
         (if v \<noteq> PNone \<and> \<not> is_bool v then
            add_error (q @ field @ q @ '' must be a boolean (true/false)'') self
          else self))"

definition validate_frontmatter :: "pyval \<Rightarrow> skill_validator \<Rightarrow> exn + skill_validator" where
  "validate_frontmatter frontmatter self =
     (if frontmatter = PNone then Inr self
      else
        and_then (py_iter frontmatter) (\<lambda>keys.
        and_then (check_keys keys self) (\<lambda>self1.
        and_then (py_get frontmatter ''name'') (\<lambda>name.
        and_then (check_name name self1) (\<lambda>self2.
        and_then (py_get frontmatter ''description'') (\<lambda>description.
        and_then (check_description description self2) (\<lambda>self3.
        check_bool_fields frontmatter [''disable-model-invocation'', ''user-invocable'']
          self3)))))))"

definition recommended_sections :: "(string \<times> string) list" where
  "recommended_sections =
     [(''When to Use'', ''when to use''),
      (''Quick Start'', ''quick start''),
      (''Examples'', ''example'')]"

fun check_sections :: "string \<Rightarrow> (string \<times> string) list \<Rightarrow> skill_validator \<Rightarrow> skill_validator" where
  "check_sections content_lower [] self = self"
| "check_sections content_lower ((section_name, pattern) # rest) self =
     check_sections content_lower rest
       (if \<not> py_in pattern content_lower then
          add_warning (''Missing recommended section: '' @ q @ section_name @ q) self
        else self)"

text \<open>\<^verbatim>\<open>\[.*?\]\((?:\.\.\/){2,}.*?\)\<close>, with \<open>parent_step\<close> for \<^verbatim>\<open>\.\.\/\<close>.\<close>

definition parent_step :: regex where
  "parent_step = Cat (Lit CHR ''.'') (Cat (Lit CHR ''.'') (Lit CHR ''/''))"

definition ref_pattern :: regex where
  "ref_pattern =
     Cat (Lit CHR ''['') (Cat (Rep 0 Dot) (Cat (Lit CHR '']'') (Cat (Lit CHR ''('')
       (Cat (Rep 2 parent_step) (Cat (Rep 0 Dot) (Lit CHR '')''))))))"

definition deep_ref_warning :: string where
  "deep_ref_warning = ''Deeply nested file references detected (avoid ../..)''"

definition validate_content :: "string \<Rightarrow> skill_validator \<Rightarrow> skill_validator" where
  "validate_content content self =
     (let content_lower = lower content;
          self1 = check_sections content_lower recommended_sections self
      in if re_search ref_pattern content then add_warning deep_ref_warning self1
         else self1)"

definition line_count_check :: "string \<Rightarrow> skill_validator \<Rightarrow> skill_validator" where
  "line_count_check content self =
     (let lines = split [newline] content
      in if length lines > MAX_LINES then
           add_warning (''SKILL.md has '' @ show_nat (length lines) @
             '' lines (recommended max: '' @ show_nat MAX_LINES @ '')'') self
         else self)"

definition no_frontmatter_error :: string where
  "no_frontmatter_error = ''Invalid or missing YAML frontmatter''"

definition validate_skill_md :: "loader \<Rightarrow> fs \<Rightarrow> skill_validator \<Rightarrow> exn + skill_validator" where
  "validate_skill_md safe_load fs self =
     (if \<not> md_exists fs then Inr self
      else
        and_then (md_read fs) (\<lambda>content.
          (let self1 = line_count_check content self;
               (self2, frontmatter) = parse_frontmatter safe_load content self1
           in if frontmatter = PNone then Inr (add_error no_frontmatter_error self2)
              else
                and_then (validate_frontmatter frontmatter self2) (\<lambda>self3.
                  Inr (validate_content content self3)))))"

definition validate :: "loader \<Rightarrow> fs \<Rightarrow> skill_validator \<Rightarrow> exn + (bool \<times> string list \<times> string list)" where
  "validate safe_load fs self =
     and_then (validate_skill_md safe_load fs (validate_folder_structure fs self)) (\<lambda>self1.
       Inr (length (errors self1) = 0, errors self1, warnings self1))"

section \<open>Sample inputs\<close>

text \<open>
  The closed instances below need a concrete decoder. \<open>sample_load\<close> records what
  \<open>yaml.safe_load\<close> returns on a blank document (spaces and line breaks only: \<open>None\<close>) and
  on the few documents the instances use; any other document is outside the table and no
  instance decodes one.
\<close>

definition blank :: "string \<Rightarrow> bool" where
  "blank s = list_all (\<lambda>c. c = CHR '' '' \<or> c = newline) s"

text \<open>The message of the scanner error that PyYAML raises on the block \<open>a: b: c\<close>.\<close>

definition scanner_detail :: string where
  \<open>scanner_detail =
     ''mapping values are not allowed here\<newline>'' @
     ''  in "<unicode string>", line 2, column 5:\<newline>'' @
     ''    a: b: c\<newline>'' @
     ''        ^''\<close>

definition sample_load :: loader where
  "sample_load s =
     (if blank s then Inr PNone
      else if s = ''key: v'' then Inr (PDict [(PStr ''key'', PStr ''v'')])
      else if s = ''\<newline>hello\<newline>'' then Inr (PStr ''hello'')
      else if s = ''\<newline>- a\<newline>- b\<newline>'' then Inr (PList [PStr ''a'', PStr ''b''])
      else if s = ''\<newline>name: 123\<newline>'' then Inr (PDict [(PStr ''name'', PInt 123)])
      else if s = ''\<newline>description: Does X. Use when Y.\<newline>'' then
        Inr (PDict [(PStr ''description'', PStr ''Does X. Use when Y.'')])
      else if s = ''\<newline>a: b: c\<newline>'' then Inl scanner_detail
      else Inl ''outside the table'')"

text \<open>A skill folder \<open>skills/<name>\<close> that holds a readable \<open>SKILL.md\<close> with the given text.\<close>

definition folder :: "string \<Rightarrow> path" where
  "folder nm = \<lparr>path_str = ''skills/'' @ nm, path_name = nm\<rparr>"

definition holding :: "string \<Rightarrow> fs" where
  "holding content = \<lparr>dir_exists = True, dir_is_dir = True, md_exists = True, md_read = Inr content\<rparr>"

text \<open>The message of the description check, named for the statements below.\<close>

definition missing_description :: string where
  "missing_description = ''Missing required 'description' field''"

section \<open>Line count, validity, structure\<close>

lemma startswith_append [simp]: "startswith (p @ s) p"
  by (simp add: startswith_def)

lemma find_first_single_None: "(find_first [c] s = None) = (c \<notin> set s)"
  by (induction s) (auto simp: startswith_def split: option.splits)

lemma find_first_single_Some:
  "find_first [c] s = Some (a, b) \<Longrightarrow> count_list s c = Suc (count_list b c) \<and> length b < length s"
  by (induction s arbitrary: a) (auto simp: startswith_def split: option.splits if_splits)

lemma count_list_0: "c \<notin> set s \<Longrightarrow> count_list s c = 0"
  by (induction s) auto

lemma length_split_max_single:
  "length (split_max [c] n s) = Suc (min n (count_list s c))"
proof (induction n arbitrary: s)
  case 0
  show ?case by simp
next
  case (Suc n)
  show ?case
  proof (cases "find_first [c] s")
    case None
    then have "c \<notin> set s" by (simp add: find_first_single_None)
    with None show ?thesis by (simp add: count_list_0)
  next
    case (Some ab)
    obtain a b where ab: "ab = (a, b)" by (cases ab)
    from find_first_single_Some[of c s a b] Some ab
    have "count_list s c = Suc (count_list b c)" by simp
    with Some ab Suc.IH[of b] show ?thesis by simp
  qed
qed

lemma count_list_le_length: "count_list s c \<le> length s"
  by (induction s) auto

lemma length_split_single: "length (split [c] s) = Suc (count_list s c)"
  by (simp add: split_def length_split_max_single min_absorb2 count_list_le_length)


lemma show_nat_500: "show_nat 500 = ''500''"
  by code_simp

lemma show_nat_501: "show_nat 501 = ''501''"
  by code_simp

lemma line_count_check_eq:
  "line_count_check content self =
     (if 500 \<le> count_list content newline then
        add_warning (''SKILL.md has '' @ show_nat (count_list content newline + 1) @
          '' lines (recommended max: 500)'') self
      else self)"
  by (auto simp: line_count_check_def Let_def length_split_single MAX_LINES_def show_nat_500)

text \<open>
  Claim C10. The line count of the advisory is the number of line-break characters of the
  text plus one, because the text is split on the line break. So the warning is emitted
  exactly when the text holds at least 500 line breaks, and it reports that number plus one:
  500 lines that each end with a line break are reported as 501 lines.
\<close>

theorem line_count_counts_newlines:
  "length (split [newline] content) = count_list content newline + 1 \<and>
   line_count_check content self =
     (if 500 \<le> count_list content newline then
        add_warning (''SKILL.md has '' @ show_nat (count_list content newline + 1) @
          '' lines (recommended max: 500)'') self
      else self)"
  using line_count_check_eq[of content self] by (simp add: length_split_single)

lemma count_list_append: "count_list (xs @ ys) c = count_list xs c + count_list ys c"
  by (induction xs) auto

lemma count_list_concat_replicate:
  "count_list (concat (replicate n xs)) c = n * count_list xs c"
  by (induction n) (auto simp: count_list_append)

lemma count_five_hundred: "count_list (concat (replicate 500 ''x\<newline>'')) newline = 500"
  by (simp add: count_list_concat_replicate newline_def)

text \<open>
  A text of 500 lines, each ending with a line break, is reported as 501 lines.
\<close>

theorem line_count_counts_newlines_witness:
  "warnings (line_count_check (concat (replicate 500 ''x\<newline>'')) (init (folder ''my-skill''))) =
     [''SKILL.md has 501 lines (recommended max: 500)'']"
  using line_count_counts_newlines[of "concat (replicate 500 ''x\<newline>'')" "init (folder ''my-skill'')"]
  by (simp add: count_five_hundred show_nat_501 add_warning_def init_def)





lemma structure_clean:
  assumes "errors (validate_folder_structure fs (init p)) = []"
  shows "md_exists fs \<and> validate_folder_structure fs (init p) = init p"
  using assms
  by (auto simp: validate_folder_structure_def add_error_def init_def Let_def split: if_splits)

lemma parse_no_delimiter:
  "\<not> startswith content ''---'' \<Longrightarrow> parse_frontmatter safe_load content self = (self, PNone)"
  by (simp add: parse_frontmatter_def)

text \<open>
  Claim C5. When the structure checks of a fresh run emit no error and the document text
  does not start with \<open>---\<close>, the run returns exactly one error, "Invalid or missing YAML
  frontmatter"; no field or content check runs, so the only warning there can be is the
  line-count advisory.
\<close>

theorem no_delimiter_single_error:
  assumes "errors (validate_folder_structure fs (init p)) = []"
    and "md_read fs = Inr content"
    and "\<not> startswith content ''---''"
  shows "validate safe_load fs (init p) =
           Inr (False, [''Invalid or missing YAML frontmatter''],
                if 500 \<le> count_list content newline then
                  [''SKILL.md has '' @ show_nat (count_list content newline + 1) @
                   '' lines (recommended max: 500)'']
                else [])"
proof -
  from structure_clean[OF assms(1)]
  have md: "md_exists fs" and st: "validate_folder_structure fs (init p) = init p"
    by simp_all
  have "validate_skill_md safe_load fs (init p) =
          Inr (add_error no_frontmatter_error (line_count_check content (init p)))"
    using md assms(2) parse_no_delimiter[OF assms(3)]
    by (simp add: validate_skill_md_def and_then_def Let_def)
  then have "validate safe_load fs (init p) =
          Inr (False,
               errors (add_error no_frontmatter_error (line_count_check content (init p))),
               warnings (add_error no_frontmatter_error (line_count_check content (init p))))"
    by (simp add: validate_def st and_then_def add_error_def)
  then show ?thesis
    by (simp add: line_count_check_eq add_error_def add_warning_def init_def
        no_frontmatter_error_def)
qed

lemma sample_structure_clean:
  "errors (validate_folder_structure (holding ''# My skill'') (init (folder ''my-skill''))) = []"
  by code_simp

lemma sample_no_delimiter: "\<not> startswith ''# My skill'' ''---''"
  by code_simp

text \<open>
  A document that is a heading only.
\<close>

theorem no_delimiter_single_error_witness:
  "validate sample_load (holding ''# My skill'') (init (folder ''my-skill'')) =
     Inr (False, [''Invalid or missing YAML frontmatter''], [])"
proof -
  have rd: "md_read (holding ''# My skill'') = Inr ''# My skill''"
    by (simp add: holding_def)
  have "count_list ''# My skill'' newline = 0"
    by (simp add: newline_def)
  with no_delimiter_single_error[OF sample_structure_clean rd sample_no_delimiter, of sample_load]
  show ?thesis by simp
qed





lemma find_first_delimited:
  assumes "sep \<noteq> []" and "\<not> py_in sep (blk @ butlast sep)"
  shows "find_first sep (blk @ sep @ body) = Some (blk, body)"
  using assms(2)
proof (induction blk)
  case Nil
  from assms(1) obtain c cs where "sep = c # cs" by (cases sep) auto
  then show ?case by (simp add: startswith_def)
next
  case (Cons x xs)
  from Cons.prems have ns: "\<not> startswith ((x # xs) @ butlast sep) sep"
    and rest: "\<not> py_in sep (xs @ butlast sep)"
    by simp_all
  have len: "length sep \<le> length ((x # xs) @ butlast sep)"
    by simp
  have "take (length sep) ((x # xs) @ sep @ body) = take (length sep) ((x # xs) @ butlast sep)"
  proof -
    have "(x # xs) @ sep @ body = ((x # xs) @ butlast sep) @ [last sep] @ body"
      using assms(1) by simp
    then show ?thesis using len by (simp only: take_append) simp
  qed
  with ns have "\<not> startswith ((x # xs) @ sep @ body) sep"
    by (simp add: startswith_def)
  with Cons.IH[OF rest] show ?case by simp
qed

lemma split_delimited:
  assumes "\<not> py_in ''---'' (blk @ ''--'')"
  shows "split_max ''---'' 2 (''---'' @ blk @ ''---'' @ body) = [[], blk, body]"
proof -
  have f1: "find_first ''---'' (''---'' @ blk @ ''---'' @ body) = Some ([], blk @ ''---'' @ body)"
    by (simp add: startswith_def)
  have f2: "find_first ''---'' (blk @ ''---'' @ body) = Some (blk, body)"
    using find_first_delimited[of "''---''" blk body] assms by simp
  show ?thesis
    by (simp add: numeral_2_eq_2 f1 f2 del: find_first.simps append.simps)
qed

lemma parse_delimited:
  assumes "\<not> py_in ''---'' (blk @ ''--'')"
  shows "parse_frontmatter safe_load (''---'' @ blk @ ''---'' @ body) self =
           (case safe_load blk of
              Inr v \<Rightarrow> (self, v)
            | Inl e \<Rightarrow> (add_error (''YAML parsing error: '' @ e) self, PNone))"
proof -
  have st: "startswith (''---'' @ blk @ ''---'' @ body) ''---''"
    by (simp add: startswith_def)
  show ?thesis
    unfolding parse_frontmatter_def split_delimited[OF assms] using st
    by (simp del: append.simps)
qed






lemma blank_no_delimiter: "blank blk \<Longrightarrow> \<not> py_in ''---'' (blk @ ''--'')"
  by (induction blk) (auto simp: blank_def startswith_def newline_def)

text \<open>
  Claim C1, as the code has it. When the text starts with \<open>---\<close>, the metadata block up to
  the second \<open>---\<close> is blank and the decoder returns \<open>None\<close> for it (as PyYAML does for a
  blank document), the parser returns \<open>None\<close>, not an empty mapping, and the run records
  "Invalid or missing YAML frontmatter"; no field or content check runs, so the
  missing-description error is not recorded.
\<close>

theorem blank_block_is_parse_failure:
  assumes "md_exists fs"
    and "md_read fs = Inr (''---'' @ blk @ ''---'' @ body)"
    and "blank blk"
    and "safe_load blk = Inr PNone"
  shows "parse_frontmatter safe_load (''---'' @ blk @ ''---'' @ body) self = (self, PNone) \<and>
         validate_skill_md safe_load fs self =
           Inr (add_error ''Invalid or missing YAML frontmatter''
                 (line_count_check (''---'' @ blk @ ''---'' @ body) self))"
proof -
  have p: "\<And>s. parse_frontmatter safe_load (''---'' @ blk @ ''---'' @ body) s = (s, PNone)"
    using parse_delimited[OF blank_no_delimiter[OF assms(3)], of safe_load body] assms(4)
    by simp
  show ?thesis
    using assms(1,2) p
    by (simp add: validate_skill_md_def and_then_def Let_def no_frontmatter_error_def
        del: append.simps)
qed

text \<open>
  The claim that a blank block parses to an empty mapping and reaches the field checks
  fails on the document made of the two delimiter lines: the only error is the parse
  failure, and the missing-description error is absent.
\<close>

theorem blank_block_counterexample:
  "validate sample_load (holding ''---\<newline>---\<newline>'') (init (folder ''my-skill'')) =
     Inr (False, [''Invalid or missing YAML frontmatter''], [])"
  by code_simp

lemma sample_blank: "blank ''\<newline>'' \<and> sample_load ''\<newline>'' = Inr PNone \<and>
   line_count_check ''---\<newline>---\<newline>'' (init (folder ''my-skill'')) = init (folder ''my-skill'')"
  by code_simp

text \<open>
  The same document, through the theorem.
\<close>

theorem blank_block_is_parse_failure_witness:
  "parse_frontmatter sample_load ''---\<newline>---\<newline>'' (init (folder ''my-skill'')) =
     (init (folder ''my-skill''), PNone) \<and>
   validate_skill_md sample_load (holding ''---\<newline>---\<newline>'') (init (folder ''my-skill'')) =
     Inr (add_error ''Invalid or missing YAML frontmatter'' (init (folder ''my-skill'')))"
proof -
  have md: "md_exists (holding ''---\<newline>---\<newline>'')"
    and rd: "md_read (holding ''---\<newline>---\<newline>'') = Inr (''---'' @ ''\<newline>'' @ ''---'' @ ''\<newline>'')"
    by (simp_all add: holding_def)
  from sample_blank have b: "blank ''\<newline>''" and l: "sample_load ''\<newline>'' = Inr PNone"
    and lc: "line_count_check ''---\<newline>---\<newline>'' (init (folder ''my-skill'')) = init (folder ''my-skill'')"
    by blast+
  from blank_block_is_parse_failure[where safe_load = sample_load
      and self = "init (folder ''my-skill'')", OF md rd b l] lc
  show ?thesis by simp
qed

text \<open>
  Claim C9. The delimiter is the three-character substring \<open>---\<close>, wherever it stands in
  a line, and the text is cut at its first two occurrences only: for a text that starts
  with \<open>---\<close>, the metadata block runs up to the next occurrence of \<open>---\<close> (the block
  followed by \<open>--\<close> holds none), and whatever follows, further \<open>---\<close> included, is the
  third segment. The parser decodes the block and nothing else.
\<close>

theorem delimiter_is_substring:
  assumes "\<not> py_in ''---'' (blk @ ''--'')"
  shows "split_max ''---'' 2 (''---'' @ blk @ ''---'' @ body) = [[], blk, body] \<and>
         parse_frontmatter safe_load (''---'' @ blk @ ''---'' @ body) self =
           (case safe_load blk of
              Inr v \<Rightarrow> (self, v)
            | Inl e \<Rightarrow> (add_error (''YAML parsing error: '' @ e) self, PNone))"
  using split_delimited[OF assms] parse_delimited[OF assms] by simp

lemma sample_mid_line: "\<not> py_in ''---'' (''key: v'' @ ''--'') \<and>
    sample_load ''key: v'' = Inr (PDict [(PStr ''key'', PStr ''v'')])"
  by code_simp

text \<open>
  \<open>---key: v---body---more\<close> parses to the mapping of \<open>key\<close> to \<open>v\<close>.
\<close>

theorem delimiter_is_substring_witness:
  "split_max ''---'' 2 ''---key: v---body---more'' = [[], ''key: v'', ''body---more''] \<and>
   parse_frontmatter sample_load ''---key: v---body---more'' (init (folder ''my-skill'')) =
     (init (folder ''my-skill''), PDict [(PStr ''key'', PStr ''v'')])"
proof -
  from sample_mid_line have n: "\<not> py_in ''---'' (''key: v'' @ ''--'')"
    and l: "sample_load ''key: v'' = Inr (PDict [(PStr ''key'', PStr ''v'')])"
    by blast+
  from delimiter_is_substring[where safe_load = sample_load and body = "''body---more''"
      and self = "init (folder ''my-skill'')", OF n] l
  show ?thesis by simp
qed

section \<open>The pattern for nested references\<close>

lemma one_char_iff:
  "d \<in> set (one_char p (i, s)) \<longleftrightarrow> (\<exists>c t. s = c # t \<and> p c \<and> d = (Suc i, t))"
  by (cases s) auto

lemma run_Cat_iff: "d \<in> set (run (Cat r s) c) \<longleftrightarrow> (\<exists>m \<in> set (run r c). d \<in> set (run s m))"
  by auto

lemma parent_step_iff:
  "d \<in> set (run parent_step (i, s)) \<longleftrightarrow> (\<exists>t. s = ''../'' @ t \<and> d = (i + 3, t))"
  by (auto simp: parent_step_def one_char_iff)

lemma dots_iff:
  "length s \<le> fuel \<Longrightarrow>
   d \<in> set (many (run Dot) 0 fuel (i, s)) \<longleftrightarrow>
     (\<exists>a t. s = a @ t \<and> newline \<notin> set a \<and> d = (i + length a, t))"
proof (induction fuel arbitrary: i s)
  case 0
  then show ?case by auto
next
  case (Suc k)
  show ?case
  proof (cases s)
    case Nil
    then show ?thesis by auto
  next
    case (Cons x xs)
    with Suc.prems have len: "length xs \<le> k" by simp
    show ?thesis
    proof (cases "x = newline")
      case True
      with Cons show ?thesis
        by (auto simp: Cons_eq_append_conv)
    next
      case False
      with Cons Suc.IH[OF len, of "Suc i"] show ?thesis
        by (auto simp: Cons_eq_append_conv)
    qed
  qed
qed

lemma steps_sound:
  "d \<in> set (many (run parent_step) 0 fuel c) \<Longrightarrow> \<exists>a. snd c = a @ snd d \<and> newline \<notin> set a"
proof (induction fuel arbitrary: c)
  case 0
  then show ?case by simp
next
  case (Suc k)
  obtain i s where c: "c = (i, s)" by (cases c)
  from Suc.prems consider "d = c"
    | m where "m \<in> set (run parent_step c)" "d \<in> set (many (run parent_step) 0 k m)"
    by auto
  then show ?case
  proof cases
    case 1
    then show ?thesis by simp
  next
    case 2
    from 2(1) c obtain t where t: "s = ''../'' @ t" "m = (i + 3, t)"
      by (auto simp: parent_step_iff)
    from Suc.IH[OF 2(2)] obtain a where "snd m = a @ snd d" "newline \<notin> set a" by blast
    with t c have "snd c = (''../'' @ a) @ snd d \<and> newline \<notin> set (''../'' @ a)"
      by (simp add: newline_def)
    then show ?thesis by blast
  qed
qed

lemma many_head: "c \<in> set (many f 0 fuel c)"
  by (cases fuel) auto

lemma many_Suc_iff:
  "d \<in> set (many f (Suc n) fuel c) \<longleftrightarrow> (\<exists>m \<in> set (f c). d \<in> set (many f n fuel m))"
  by auto

lemma two_steps_sound:
  assumes "d \<in> set (many (run parent_step) 2 fuel (i, s))"
  shows "\<exists>u. s = ''../../'' @ u @ snd d \<and> newline \<notin> set u"
proof -
  from assms obtain m1 m2 where m1: "m1 \<in> set (run parent_step (i, s))"
    and m2: "m2 \<in> set (run parent_step m1)"
    and d: "d \<in> set (many (run parent_step) 0 fuel m2)"
    by (auto simp: numeral_2_eq_2)
  from m1 obtain t1 where t1: "s = ''../'' @ t1" "m1 = (i + 3, t1)"
    by (auto simp: parent_step_iff)
  from m2 t1 obtain t2 where t2: "t1 = ''../'' @ t2" "m2 = (i + 3 + 3, t2)"
    by (auto simp: parent_step_iff)
  from steps_sound[OF d] t2 obtain u where "t2 = u @ snd d" "newline \<notin> set u" by auto
  with t1 t2 show ?thesis by auto
qed

lemma two_steps_complete:
  "(i + 6, t) \<in> set (many (run parent_step) 2 fuel (i, ''../../'' @ t))"
proof -
  have 1: "(i + 3, ''../'' @ t) \<in> set (run parent_step (i, ''../../'' @ t))"
    by (simp add: parent_step_iff)
  have 2: "(i + 6, t) \<in> set (run parent_step (i + 3, ''../'' @ t))"
    by (simp add: parent_step_iff)
  have 3: "(i + 6, t) \<in> set (many (run parent_step) 0 fuel (i + 6, t))"
    by (rule many_head)
  from 2 3 have "(i + 6, t) \<in> set (many (run parent_step) (Suc 0) fuel (i + 3, ''../'' @ t))"
    unfolding many_Suc_iff by (rule bexI[rotated])
  with 1 have "(i + 6, t) \<in> set (many (run parent_step) (Suc (Suc 0)) fuel (i, ''../../'' @ t))"
    unfolding many_Suc_iff[of _ _ "Suc 0"] by (rule bexI[rotated])
  then show ?thesis by (simp only: numeral_2_eq_2)
qed


lemma lit_iff:
  "d \<in> set (run (Lit x) (i, s)) \<longleftrightarrow> (\<exists>t. s = x # t \<and> d = (Suc i, t))"
  by (auto simp: one_char_iff)

lemma rep_dots_iff:
  "d \<in> set (run (Rep 0 Dot) (i, s)) \<longleftrightarrow>
     (\<exists>a t. s = a @ t \<and> newline \<notin> set a \<and> d = (i + length a, t))"
  using dots_iff[of s "length s" d i] by simp

lemma ref_pattern_sound:
  assumes "d \<in> set (run ref_pattern (i, s))"
  shows "\<exists>a b. s = ''['' @ a @ ''](../../'' @ b @ '')'' @ snd d \<and>
           newline \<notin> set a \<and> newline \<notin> set b"
proof -
  from assms obtain m1 m2 m3 m4 m5 m6 where
    1: "m1 \<in> set (run (Lit CHR ''['') (i, s))" and
    2: "m2 \<in> set (run (Rep 0 Dot) m1)" and
    3: "m3 \<in> set (run (Lit CHR '']'') m2)" and
    4: "m4 \<in> set (run (Lit CHR ''('') m3)" and
    5: "m5 \<in> set (run (Rep 2 parent_step) m4)" and
    6: "m6 \<in> set (run (Rep 0 Dot) m5)" and
    7: "d \<in> set (run (Lit CHR '')'') m6)"
    unfolding ref_pattern_def run_Cat_iff by blast
  from 1 obtain s1 where s1: "s = CHR ''['' # s1" "m1 = (Suc i, s1)"
    unfolding lit_iff by blast
  from 2 s1 obtain a s2 j2 where s2: "s1 = a @ s2" "newline \<notin> set a" "m2 = (j2, s2)"
    unfolding s1 rep_dots_iff by blast
  from 3 obtain s3 where s3: "s2 = CHR '']'' # s3" "m3 = (Suc j2, s3)"
    unfolding s2 lit_iff by blast
  from 4 obtain s4 where s4: "s3 = CHR ''('' # s4" "m4 = (Suc (Suc j2), s4)"
    unfolding s3 lit_iff by blast
  obtain j5 s5 where m5: "m5 = (j5, s5)" by (cases m5)
  from 5 have "m5 \<in> set (many (run parent_step) 2 (length s4) (Suc (Suc j2), s4))"
    unfolding s4 by simp
  from two_steps_sound[OF this] m5 obtain u where u: "s4 = ''../../'' @ u @ s5" "newline \<notin> set u"
    by auto
  from 6 obtain b s6 j6 where s6: "s5 = b @ s6" "newline \<notin> set b" "m6 = (j6, s6)"
    unfolding m5 rep_dots_iff by blast
  from 7 obtain t where t: "s6 = CHR '')'' # t" "d = (Suc j6, t)"
    unfolding s6 lit_iff by blast
  have "s = ''['' @ a @ ''](../../'' @ (u @ b) @ '')'' @ snd d"
    using s1 s2 s3 s4 u s6 t by simp
  moreover have "newline \<notin> set (u @ b)"
    using u s6 by simp
  ultimately show ?thesis using s2(2) by blast
qed

lemma ref_pattern_complete:
  assumes "newline \<notin> set a" and "newline \<notin> set b"
  shows "run ref_pattern (i, ''['' @ a @ ''](../../'' @ b @ '')'' @ t) \<noteq> []"
proof -
  let ?s1 = "a @ ''](../../'' @ b @ '')'' @ t"
  let ?s2 = "''](../../'' @ b @ '')'' @ t"
  let ?s3 = "''(../../'' @ b @ '')'' @ t"
  let ?s4 = "''../../'' @ b @ '')'' @ t"
  let ?s5 = "b @ '')'' @ t"
  let ?s6 = "'')'' @ t"
  let ?j = "Suc i + length a"
  have 1: "(Suc i, ?s1) \<in> set (run (Lit CHR ''['') (i, ''['' @ ?s1))"
    unfolding lit_iff by simp
  have 2: "(?j, ?s2) \<in> set (run (Rep 0 Dot) (Suc i, ?s1))"
    unfolding rep_dots_iff using assms(1) by blast
  have 3: "(Suc ?j, ?s3) \<in> set (run (Lit CHR '']'') (?j, ?s2))"
    unfolding lit_iff by simp
  have 4: "(Suc (Suc ?j), ?s4) \<in> set (run (Lit CHR ''('') (Suc ?j, ?s3))"
    unfolding lit_iff by simp
  have 5: "(Suc (Suc ?j) + 6, ?s5) \<in> set (run (Rep 2 parent_step) (Suc (Suc ?j), ?s4))"
    using two_steps_complete[of "Suc (Suc ?j)" ?s5 "length ?s4"] by simp
  have 6: "(Suc (Suc ?j) + 6 + length b, ?s6) \<in> set (run (Rep 0 Dot) (Suc (Suc ?j) + 6, ?s5))"
    unfolding rep_dots_iff using assms(2) by blast
  have 7: "(Suc (Suc (Suc ?j) + 6 + length b), t) \<in>
             set (run (Lit CHR '')'') (Suc (Suc ?j) + 6 + length b, ?s6))"
    unfolding lit_iff by simp
  have "(Suc (Suc (Suc ?j) + 6 + length b), t) \<in> set (run ref_pattern (i, ''['' @ ?s1))"
    unfolding ref_pattern_def run_Cat_iff using 1 2 3 4 5 6 7 by blast
  then show ?thesis by auto
qed

lemma re_search_iff:
  "re_search r s \<longleftrightarrow> (\<exists>pre rest. s = pre @ rest \<and> run r (length pre, rest) \<noteq> [])"
proof
  assume "re_search r s"
  then have "\<exists>i \<in> set [0..<Suc (length s)]. run r (i, drop i s) \<noteq> []"
    unfolding re_search_def list_ex_iff .
  then obtain i where "i \<in> set [0..<Suc (length s)]" and "run r (i, drop i s) \<noteq> []"
    by blast
  then have i: "i \<le> length s" "run r (i, drop i s) \<noteq> []"
    by auto
  then have "s = take i s @ drop i s \<and> run r (length (take i s), drop i s) \<noteq> []"
    by (simp add: min_absorb2)
  then show "\<exists>pre rest. s = pre @ rest \<and> run r (length pre, rest) \<noteq> []"
    by blast
next
  assume "\<exists>pre rest. s = pre @ rest \<and> run r (length pre, rest) \<noteq> []"
  then obtain pre rest where "s = pre @ rest" "run r (length pre, rest) \<noteq> []"
    by blast
  then have "length pre \<le> length s \<and> run r (length pre, drop (length pre) s) \<noteq> []"
    by simp
  then show "re_search r s"
    unfolding re_search_def list_ex_iff by (intro bexI[of _ "length pre"]) auto
qed

lemma ref_search_iff:
  "re_search ref_pattern content \<longleftrightarrow>
     (\<exists>pre a b post. content = pre @ ''['' @ a @ ''](../../'' @ b @ '')'' @ post \<and>
        newline \<notin> set a \<and> newline \<notin> set b)"
proof
  assume "re_search ref_pattern content"
  then obtain pre rest where pr: "content = pre @ rest" "run ref_pattern (length pre, rest) \<noteq> []"
    unfolding re_search_iff by blast
  then obtain d where "d \<in> set (run ref_pattern (length pre, rest))"
    by (cases "run ref_pattern (length pre, rest)") auto
  from ref_pattern_sound[OF this] pr(1)
  show "\<exists>pre a b post. content = pre @ ''['' @ a @ ''](../../'' @ b @ '')'' @ post \<and>
        newline \<notin> set a \<and> newline \<notin> set b"
    by blast
next
  assume "\<exists>pre a b post. content = pre @ ''['' @ a @ ''](../../'' @ b @ '')'' @ post \<and>
        newline \<notin> set a \<and> newline \<notin> set b"
  then obtain pre a b post where c: "content = pre @ ''['' @ a @ ''](../../'' @ b @ '')'' @ post"
    and n: "newline \<notin> set a" "newline \<notin> set b"
    by blast
  from ref_pattern_complete[OF n, of "length pre" post] c
  show "re_search ref_pattern content"
    unfolding re_search_iff by blast
qed


lemma check_sections_adds:
  "\<exists>ws. warnings (check_sections cl secs self) = warnings self @ ws \<and>
         errors (check_sections cl secs self) = errors self \<and>
         deep_ref_warning \<notin> set ws"
proof (induction secs arbitrary: self)
  case Nil
  then show ?case by simp
next
  case (Cons sec rest)
  obtain section_name pattern where sec: "sec = (section_name, pattern)" by (cases sec)
  let ?m = "''Missing recommended section: '' @ q @ section_name @ q"
  have ne: "?m \<noteq> deep_ref_warning"
    by (simp add: deep_ref_warning_def)
  show ?case
  proof (cases "py_in pattern cl")
    case True
    with sec Cons.IH[of self] show ?thesis by simp
  next
    case False
    from Cons.IH[of "add_warning ?m self"] obtain ws where
      ws: "warnings (check_sections cl rest (add_warning ?m self)) = warnings (add_warning ?m self) @ ws"
        "errors (check_sections cl rest (add_warning ?m self)) = errors (add_warning ?m self)"
        "deep_ref_warning \<notin> set ws"
      by blast
    have "warnings (check_sections cl (sec # rest) self) = warnings self @ (?m # ws) \<and>
          errors (check_sections cl (sec # rest) self) = errors self \<and>
          deep_ref_warning \<notin> set (?m # ws)"
      using False sec ws ne by (simp add: add_warning_def del: append.simps)
    then show ?thesis by blast
  qed
qed

text \<open>
  Claim C3, as the code has it. The content check appends the warning about deeply nested
  references exactly when the text holds \<open>[\<close>, a label, \<open>](\<close>, then at once \<open>../../\<close>, the rest of
  the target and \<open>)\<close>, where neither the label nor the rest of the target holds a line
  break: the traversal segments must open the target. It appends it at most once, and
  appends no error.
\<close>

theorem deep_reference_warning:
  "\<exists>ws. warnings (validate_content content self) = warnings self @ ws \<and>
         errors (validate_content content self) = errors self \<and>
         (''Deeply nested file references detected (avoid ../..)'' \<in> set ws \<longleftrightarrow>
            (\<exists>pre a b post. content = pre @ ''['' @ a @ ''](../../'' @ b @ '')'' @ post \<and>
               newline \<notin> set a \<and> newline \<notin> set b)) \<and>
         count_list ws ''Deeply nested file references detected (avoid ../..)'' \<le> 1"
proof -
  let ?self1 = "check_sections (lower content) recommended_sections self"
  from check_sections_adds[of "lower content" recommended_sections self] obtain ws where
    ws: "warnings ?self1 = warnings self @ ws" "errors ?self1 = errors self"
      "deep_ref_warning \<notin> set ws"
    by blast
  from ws(3) have c0: "count_list ws deep_ref_warning = 0"
    by (simp add: count_list_0_iff)
  let ?ws = "ws @ (if re_search ref_pattern content then [deep_ref_warning] else [])"
  have "warnings (validate_content content self) = warnings self @ ?ws \<and>
        errors (validate_content content self) = errors self \<and>
        (deep_ref_warning \<in> set ?ws \<longleftrightarrow> re_search ref_pattern content) \<and>
        count_list ?ws deep_ref_warning \<le> 1"
    using ws c0 by (simp add: validate_content_def Let_def add_warning_def)
  then show ?thesis
    unfolding ref_search_iff deep_ref_warning_def by blast
qed

text \<open>
  The claim that the traversal segments may stand anywhere inside the target fails on
  \<open>[x](docs/../../y)\<close>: no warning about nested references is emitted.
\<close>

theorem deep_reference_counterexample:
  "''Deeply nested file references detected (avoid ../..)'' \<notin>
     set (warnings (validate_content ''[x](docs/../../y)'' (init (folder ''my-skill''))))"
  by code_simp

text \<open>
  \<open>[x](../../y)\<close> is warned about.
\<close>

theorem deep_reference_warning_witness:
  "''Deeply nested file references detected (avoid ../..)'' \<in>
     set (warnings (validate_content ''[x](../../y)'' (init (folder ''my-skill''))))"
proof -
  have "''[x](../../y)'' = [] @ ''['' @ ''x'' @ ''](../../'' @ ''y'' @ '')'' @ [] \<and>
        newline \<notin> set ''x'' \<and> newline \<notin> set ''y''"
    by (simp add: newline_def)
  then have "\<exists>pre a b post. ''[x](../../y)'' = pre @ ''['' @ a @ ''](../../'' @ b @ '')'' @ post \<and>
               newline \<notin> set a \<and> newline \<notin> set b"
    by blast
  with deep_reference_warning[of "''[x](../../y)''" "init (folder ''my-skill'')"]
  show ?thesis by auto
qed

section \<open>Values of the wrong type\<close>

text \<open>
  The field checks raise on every decoded value that is neither \<open>None\<close> nor a mapping, and
  on every mapping whose \<open>name\<close> is true without being a string.
\<close>

lemma non_mapping_always_raises:
  assumes "frontmatter \<noteq> PNone" and "\<nexists>kvs. frontmatter = PDict kvs"
  shows "\<exists>e. validate_frontmatter frontmatter self = Inl e"
  using assms
  by (cases frontmatter) (auto simp: validate_frontmatter_def and_then_def split: sum.splits)

lemma non_string_name_raises:
  assumes "map_of kvs (PStr ''name'') = Some v" and "truthy v" and "\<nexists>s. v = PStr s"
  shows "\<exists>e. validate_frontmatter (PDict kvs) self = Inl e"
proof -
  have "check_name v s1 = Inl TypeError" for s1
    using assms(2,3) by (cases v) (auto simp: check_name_def)
  with assms(1) show ?thesis
    by (auto simp: validate_frontmatter_def and_then_def split: sum.splits)
qed

text \<open>
  Claim C2 fails on the code. A metadata block that decodes to a string or to a list reaches
  \<open>frontmatter.get\<close>, which only a mapping has: the run ends in an \<open>AttributeError\<close> and
  returns no result.
\<close>

theorem non_mapping_frontmatter_raises:
  "validate sample_load (holding ''---\<newline>hello\<newline>---\<newline>'') (init (folder ''my-skill'')) =
     Inl AttributeError \<and>
   validate sample_load (holding ''---\<newline>- a\<newline>- b\<newline>---\<newline>'') (init (folder ''my-skill'')) =
     Inl AttributeError"
  by code_simp

text \<open>
  Claim C7 fails on the code through the same missing type check. The block \<open>name: 123\<close>
  has no description, and \<open>len(name)\<close> raises a \<open>TypeError\<close> before the description check is
  reached: no error is recorded, the run returns no result.
\<close>

theorem numeric_name_raises_before_description_check:
  "validate sample_load (holding ''---\<newline>name: 123\<newline>---\<newline>'') (init (folder ''my-skill'')) =
     Inl TypeError"
  by code_simp


lemma and_then_Inr: "and_then r f = Inr y \<longleftrightarrow> (\<exists>x. r = Inr x \<and> f x = Inr y)"
  by (cases r) (simp_all add: and_then_def)

lemma check_keys_errors:
  "check_keys keys self = Inr self' \<Longrightarrow> errors self' = errors self"
proof (induction keys arbitrary: self)
  case Nil
  then show ?case by simp
next
  case (Cons key keys)
  then show ?case
    by (auto simp: and_then_def add_warning_def split: sum.splits if_splits)
qed

lemma check_name_str:
  "s \<noteq> [] \<Longrightarrow>
   \<exists>self'. check_name (PStr s) self = Inr self' \<and>
     errors self' = errors self @
       (if length s > MAX_NAME_LENGTH then
          [''Name '' @ q @ s @ q @ '' exceeds max length ('' @
             show_nat MAX_NAME_LENGTH @ '' chars)'']
        else []) @
       (if \<not> re_match NAME_PATTERN s then
          [''Name '' @ q @ s @ q @ '' invalid. Use lowercase, numbers, hyphens only.'']
        else [])"
  by (auto simp: check_name_def Let_def add_error_def add_warning_def simp del: append.simps)

lemma check_name_errors:
  assumes "check_name name self = Inr self'"
  shows "\<exists>es. errors self' = errors self @ es \<and> missing_description \<notin> set es"
proof (cases "truthy name")
  case False
  with assms have "errors self' = errors self @ []"
    by (auto simp: check_name_def add_warning_def)
  then show ?thesis by (intro exI[of _ "[]"]) simp
next
  case True
  with assms obtain s where s: "name = PStr s" "s \<noteq> []"
    by (cases name) (auto simp: check_name_def)
  let ?e1 = "''Name '' @ q @ s @ q @ '' exceeds max length ('' @ show_nat MAX_NAME_LENGTH @ '' chars)''"
  let ?e2 = "''Name '' @ q @ s @ q @ '' invalid. Use lowercase, numbers, hyphens only.''"
  let ?es = "(if length s > MAX_NAME_LENGTH then [?e1] else []) @
             (if \<not> re_match NAME_PATTERN s then [?e2] else [])"
  from check_name_str[OF s(2), of self] assms s have "errors self' = errors self @ ?es"
    by auto
  moreover have "missing_description \<notin> set ?es"
    by (simp add: missing_description_def)
  ultimately show ?thesis by blast
qed

lemma check_description_str:
  "s \<noteq> [] \<Longrightarrow>
   \<exists>self'. check_description (PStr s) self = Inr self' \<and>
     errors self' = errors self @
       (if length s > MAX_DESCRIPTION_LENGTH then
          [''Description exceeds max length ('' @ show_nat MAX_DESCRIPTION_LENGTH @ '' chars)'']
        else [])"
  by (simp add: check_description_def Let_def add_error_def add_warning_def del: append.simps)

lemma check_description_errors:
  assumes "check_description description self = Inr self'"
  shows "\<exists>es. errors self' = errors self @ es \<and>
           (missing_description \<in> set es \<longleftrightarrow> \<not> truthy description)"
proof (cases "truthy description")
  case False
  with assms have "errors self' = errors self @ [missing_description]"
    by (auto simp: check_description_def add_error_def missing_description_def)
  with False show ?thesis by (intro exI[of _ "[missing_description]"]) simp
next
  case True
  with assms obtain s where s: "description = PStr s" "s \<noteq> []"
    by (cases description) (auto simp: check_description_def)
  let ?e1 = "''Description exceeds max length ('' @ show_nat MAX_DESCRIPTION_LENGTH @ '' chars)''"
  let ?es = "(if length s > MAX_DESCRIPTION_LENGTH then [?e1] else [])"
  from check_description_str[OF s(2), of self] assms s have "errors self' = errors self @ ?es"
    by auto
  moreover have "missing_description \<notin> set ?es"
    by (simp add: missing_description_def)
  ultimately show ?thesis using True by blast
qed

lemma check_bool_fields_errors:
  "check_bool_fields frontmatter flds self = Inr self' \<Longrightarrow>
   \<exists>es. errors self' = errors self @ es \<and> missing_description \<notin> set es"
proof (induction flds arbitrary: self)
  case Nil
  then show ?case by simp
next
  case (Cons field rest)
  from Cons.prems obtain v where v: "py_get frontmatter field = Inr v"
    and r: "check_bool_fields frontmatter rest
              (if v \<noteq> PNone \<and> \<not> is_bool v then
                 add_error (q @ field @ q @ '' must be a boolean (true/false)'') self
               else self) = Inr self'"
    by (auto simp: and_then_def split: sum.splits)
  let ?m = "q @ field @ q @ '' must be a boolean (true/false)''"
  have ne: "?m \<noteq> missing_description"
    by (simp add: q_def missing_description_def)
  from Cons.IH[OF r] obtain es where
    es: "errors self' = errors (if v \<noteq> PNone \<and> \<not> is_bool v then add_error ?m self else self) @ es"
      "missing_description \<notin> set es"
    by blast
  show ?case
  proof (cases "v \<noteq> PNone \<and> \<not> is_bool v")
    case True
    with es ne have "errors self' = errors self @ (?m # es) \<and> missing_description \<notin> set (?m # es)"
      by (simp add: add_error_def del: append.simps)
    then show ?thesis by blast
  next
    case False
    with es show ?thesis by auto
  qed
qed

text \<open>
  Whenever the field checks of a mapping complete, the missing-description error is among
  the errors they append exactly when the description is absent or falsy.
\<close>

lemma missing_description_when_run_completes:
  assumes "validate_frontmatter (PDict kvs) self = Inr self'"
  shows "\<exists>es. errors self' = errors self @ es \<and>
           (''Missing required 'description' field'' \<in> set es \<longleftrightarrow>
              \<not> truthy (case map_of kvs (PStr ''description'') of None \<Rightarrow> PNone | Some v \<Rightarrow> v))"
proof -
  let ?name = "case map_of kvs (PStr ''name'') of None \<Rightarrow> PNone | Some v \<Rightarrow> v"
  let ?d = "case map_of kvs (PStr ''description'') of None \<Rightarrow> PNone | Some v \<Rightarrow> v"
  from assms have "\<exists>s1 s2 s3.
      check_keys (map fst kvs) self = Inr s1 \<and>
      check_name ?name s1 = Inr s2 \<and>
      check_description ?d s2 = Inr s3 \<and>
      check_bool_fields (PDict kvs) [''disable-model-invocation'', ''user-invocable''] s3 = Inr self'"
    by (simp add: validate_frontmatter_def and_then_Inr del: check_bool_fields.simps)
  then obtain s1 s2 s3 where
    1: "check_keys (map fst kvs) self = Inr s1" and
    2: "check_name ?name s1 = Inr s2" and
    3: "check_description ?d s2 = Inr s3" and
    4: "check_bool_fields (PDict kvs) [''disable-model-invocation'', ''user-invocable''] s3 = Inr self'"
    by blast
  from check_keys_errors[OF 1] have e1: "errors s1 = errors self" .
  from check_name_errors[OF 2] obtain es2 where
    e2: "errors s2 = errors s1 @ es2" "missing_description \<notin> set es2" by blast
  from check_description_errors[OF 3] obtain es3 where
    e3: "errors s3 = errors s2 @ es3" "missing_description \<in> set es3 \<longleftrightarrow> \<not> truthy ?d" by blast
  from check_bool_fields_errors[OF 4] obtain es4 where
    e4: "errors self' = errors s3 @ es4" "missing_description \<notin> set es4" by blast
  have "errors self' = errors self @ (es2 @ es3 @ es4) \<and>
        (missing_description \<in> set (es2 @ es3 @ es4) \<longleftrightarrow> \<not> truthy ?d)"
    using e1 e2 e3 e4 by simp
  then show ?thesis unfolding missing_description_def by blast
qed

end
